theory Spec2Isabelle
  imports Main
begin

section \<open>Data model (game/types.ts)\<close>

text \<open>
  JavaScript numbers are modelled as \<open>int\<close>: every coordinate, clue value and grid
  dimension the program handles is an integer. A property read on \<open>undefined\<close>
  throws a TypeError, the only exception the modelled code can raise.
\<close>

datatype error = TypeError

record Coordinate =
  row :: int
  col :: int

text \<open>
  \<open>Cell\<close>, \<open>Wall\<close> and the entries of \<open>initialValues\<close> all carry \<open>row\<close> and
  \<open>col\<close>; they extend \<open>Coordinate\<close>. The field \<open>value\<close> of the source is named
  \<open>cell_value\<close> in a cell and \<open>iv_value\<close> in a clue entry, the field \<open>id\<close> of a
  level \<open>level_id\<close>.
\<close>

record Cell = Coordinate +
  cell_value :: "int option"
  isFixed :: bool
  visitedOrder :: "int option"

datatype Orientation = horizontal | vertical

record Wall = Coordinate +
  orientation :: Orientation

record InitialValue = Coordinate +
  iv_value :: int

record Level =
  level_id :: string
  rows :: int
  cols :: int
  initialValues :: "InitialValue list"
  walls :: "Wall list"

record GameState =
  level :: Level
  grid :: "Cell list list"
  currentPath :: "Coordinate list"
  isComplete :: bool
  lastVisitedNumber :: int

section \<open>Array primitives\<close>

text \<open>\<open>xs[i]\<close>: the element, or \<open>undefined\<close> (\<open>None\<close>) outside \<open>0 .. length - 1\<close>.\<close>

definition at :: "'a list \<Rightarrow> int \<Rightarrow> 'a option" where
  "at xs i = (if 0 \<le> i \<and> i < int (length xs) then Some (xs ! nat i) else None)"

text \<open>
  \<open>grid[r][c]\<close> followed by a property access, as at every use in the source: a
  missing row or a missing cell both end in a TypeError.
\<close>

definition cellAt :: "Cell list list \<Rightarrow> int \<Rightarrow> int \<Rightarrow> error + Cell" where
  "cellAt g r c =
     (case at g r of
        None \<Rightarrow> Inl TypeError
      | Some rw \<Rightarrow> (case at rw c of None \<Rightarrow> Inl TypeError | Some cell \<Rightarrow> Inr cell))"

text \<open>
  \<open>grid[r][c].field = v\<close>: the cell is updated, or a TypeError is thrown. The grids
  the source writes to are fresh copies (\<open>grid.map(row => row.map(cell => ({ ...cell })))\<close>),
  so no other state shares the updated cell.
\<close>

definition setCell :: "Cell list list \<Rightarrow> int \<Rightarrow> int \<Rightarrow> (Cell \<Rightarrow> Cell) \<Rightarrow> error + Cell list list" where
  "setCell g r c f =
     (case cellAt g r c of
        Inl e \<Rightarrow> Inl e
      | Inr cell \<Rightarrow> Inr (g[nat r := (g ! nat r)[nat c := f cell]]))"

text \<open>\<open>Array.prototype.findIndex\<close>: the first index satisfying the predicate, or \<open>-1\<close>.\<close>

fun findIndex :: "('a \<Rightarrow> bool) \<Rightarrow> 'a list \<Rightarrow> int" where
  "findIndex P [] = -1"
| "findIndex P (x # xs) =
     (if P x then 0 else (let i = findIndex P xs in if i = -1 then -1 else i + 1))"

text \<open>\<open>Math.max(...xs)\<close>: \<open>None\<close> stands for \<open>-Infinity\<close>, the result on no arguments.\<close>

fun mathMax :: "int list \<Rightarrow> int option" where
  "mathMax [] = None"
| "mathMax (x # xs) = (case mathMax xs of None \<Rightarrow> Some x | Some m \<Rightarrow> Some (max x m))"

section \<open>Game state machine (game/logic.ts)\<close>

definition emptyGrid :: "int \<Rightarrow> int \<Rightarrow> Cell list list" where
  "emptyGrid nrows ncols =
     map (\<lambda>r. map (\<lambda>c. \<lparr>row = r, col = c, cell_value = None, isFixed = False,
                         visitedOrder = None\<rparr>) [0..ncols - 1]) [0..nrows - 1]"

fun stampValues :: "InitialValue list \<Rightarrow> Cell list list \<Rightarrow> error + Cell list list" where
  "stampValues [] g = Inr g"
| "stampValues (iv # ivs) g =
     (case setCell g (row iv) (col iv)
             (\<lambda>cell. cell\<lparr>cell_value := Some (iv_value iv), isFixed := True\<rparr>) of
        Inl e \<Rightarrow> Inl e
      | Inr g' \<Rightarrow> stampValues ivs g')"

definition initializeGame :: "Level \<Rightarrow> error + GameState" where
  "initializeGame lv =
     (case stampValues (initialValues lv) (emptyGrid (rows lv) (cols lv)) of
        Inl e \<Rightarrow> Inl e
      | Inr g \<Rightarrow>
          (case find (\<lambda>v. iv_value v = 1) (initialValues lv) of
             None \<Rightarrow>
               Inr \<lparr>level = lv, grid = g, currentPath = [], isComplete = False,
                    lastVisitedNumber = 0\<rparr>
           | Some startCell \<Rightarrow>
               (case setCell g (row startCell) (col startCell)
                       (\<lambda>cell. cell\<lparr>visitedOrder := Some 1\<rparr>) of
                  Inl e \<Rightarrow> Inl e
                | Inr g' \<Rightarrow>
                    Inr \<lparr>level = lv, grid = g',
                         currentPath = [\<lparr>row = row startCell, col = col startCell\<rparr>],
                         isComplete = False, lastVisitedNumber = 1\<rparr>)))"

definition wallBetween :: "Wall \<Rightarrow> Coordinate \<Rightarrow> Coordinate \<Rightarrow> bool" where
  "wallBetween wall from to =
     (if orientation wall = horizontal then
        col from = col wall \<and> col to = col wall \<and>
        ((row from = row wall \<and> row to = row wall + 1) \<or>
         (row from = row wall + 1 \<and> row to = row wall))
      else
        row from = row wall \<and> row to = row wall \<and>
        ((col from = col wall \<and> col to = col wall + 1) \<or>
         (col from = col wall + 1 \<and> col to = col wall)))"

definition hasWall :: "Wall list \<Rightarrow> Coordinate \<Rightarrow> Coordinate \<Rightarrow> bool" where
  "hasWall ws from to = list_ex (\<lambda>wall. wallBetween wall from to) ws"

definition samePos :: "Coordinate \<Rightarrow> Coordinate \<Rightarrow> bool" where
  "samePos target p = (row p = row target \<and> col p = col target)"

definition isValidMove :: "GameState \<Rightarrow> Coordinate \<Rightarrow> error + bool" where
  "isValidMove gameState target =
     (let path = currentPath gameState; lv = level gameState; g = grid gameState in
      if length path = 0 then Inr False
      else
        let current = last path in
        if row target < 0 \<or> row target \<ge> rows lv \<or> col target < 0 \<or> col target \<ge> cols lv
        then Inr False
        else
          let dRow = \<bar>row target - row current\<bar>;
              dCol = \<bar>col target - col current\<bar>;
              inPathIndex = findIndex (samePos target) path
          in
          if inPathIndex = -1 \<and> dRow + dCol \<noteq> 1 then Inr False
          else if inPathIndex \<noteq> -1 then Inr True
          else
            (case cellAt g (row target) (col target) of
               Inl e \<Rightarrow> Inl e
             | Inr targetCell \<Rightarrow>
                 if visitedOrder targetCell \<noteq> None \<and> inPathIndex = -1 then Inr False
                 else if inPathIndex = -1 \<and> hasWall (walls lv) current target then Inr False
                 else if inPathIndex = -1 \<and> isFixed targetCell \<and> cell_value targetCell \<noteq> None
                         \<and> cell_value targetCell \<noteq> Some (lastVisitedNumber gameState + 1)
                 then Inr False
                 else Inr True))"

text \<open>The rewind loop \<open>for (i = pathIndex + 1; i < currentPath.length; i++)\<close>.\<close>

fun clearVisited :: "Coordinate list \<Rightarrow> Cell list list \<Rightarrow> error + Cell list list" where
  "clearVisited [] g = Inr g"
| "clearVisited (p # ps) g =
     (case setCell g (row p) (col p) (\<lambda>cell. cell\<lparr>visitedOrder := None\<rparr>) of
        Inl e \<Rightarrow> Inl e
      | Inr g' \<Rightarrow> clearVisited ps g')"

text \<open>The loop \<open>for (const p of newPath)\<close> recomputing \<open>lastVisitedNumber\<close>.\<close>

fun recalcLastVisited :: "Coordinate list \<Rightarrow> Cell list list \<Rightarrow> int \<Rightarrow> error + int" where
  "recalcLastVisited [] g newLastVisited = Inr newLastVisited"
| "recalcLastVisited (p # ps) g newLastVisited =
     (case cellAt g (row p) (col p) of
        Inl e \<Rightarrow> Inl e
      | Inr cell \<Rightarrow>
          (case cell_value cell of
             None \<Rightarrow> recalcLastVisited ps g newLastVisited
           | Some val \<Rightarrow>
               if isFixed cell \<and> val > newLastVisited then recalcLastVisited ps g val
               else recalcLastVisited ps g newLastVisited))"

definition rewindTo :: "GameState \<Rightarrow> int \<Rightarrow> error + GameState" where
  "rewindTo gameState pathIndex =
     (case clearVisited (drop (nat (pathIndex + 1)) (currentPath gameState)) (grid gameState) of
        Inl e \<Rightarrow> Inl e
      | Inr newGrid \<Rightarrow>
          (let newPath = take (nat (pathIndex + 1)) (currentPath gameState) in
           case recalcLastVisited newPath newGrid 0 of
             Inl e \<Rightarrow> Inl e
           | Inr newLastVisited \<Rightarrow>
               Inr (gameState\<lparr>grid := newGrid, currentPath := newPath,
                      lastVisitedNumber := newLastVisited, isComplete := False\<rparr>)))"

definition normalMove :: "GameState \<Rightarrow> Coordinate \<Rightarrow> error + GameState" where
  "normalMove gameState target =
     (case setCell (grid gameState) (row target) (col target)
             (\<lambda>cell. cell\<lparr>visitedOrder := Some (int (length (currentPath gameState)) + 1)\<rparr>) of
        Inl e \<Rightarrow> Inl e
      | Inr newGrid \<Rightarrow>
          (case cellAt newGrid (row target) (col target) of
             Inl e \<Rightarrow> Inl e
           | Inr targetCell \<Rightarrow>
               (let newLastVisited =
                      (case cell_value targetCell of
                         None \<Rightarrow> lastVisitedNumber gameState
                       | Some v \<Rightarrow> if isFixed targetCell then v else lastVisitedNumber gameState);
                    newPath = currentPath gameState @ [target];
                    totalCells = rows (level gameState) * cols (level gameState);
                    isPathComplete = (int (length newPath) = totalCells);
                    maxNumber = mathMax (map iv_value (initialValues (level gameState)));
                    hasVisitedAllNumbers = (Some newLastVisited = maxNumber)
                in Inr (gameState\<lparr>grid := newGrid, currentPath := newPath,
                          lastVisitedNumber := newLastVisited,
                          isComplete := isPathComplete \<and> hasVisitedAllNumbers\<rparr>))))"

definition makeMove :: "GameState \<Rightarrow> Coordinate \<Rightarrow> error + GameState" where
  "makeMove gameState target =
     (let pathIndex = findIndex (samePos target) (currentPath gameState) in
      if pathIndex \<noteq> -1 \<and> pathIndex < int (length (currentPath gameState)) - 1
      then rewindTo gameState pathIndex
      else
        (case isValidMove gameState target of
           Inl e \<Rightarrow> Inl e
         | Inr valid \<Rightarrow> if \<not> valid then Inr gameState else normalMove gameState target))"

text \<open>A sequence of moves, each applied to the state the previous one returned.\<close>

fun makeMoves :: "GameState \<Rightarrow> Coordinate list \<Rightarrow> error + GameState" where
  "makeMoves gameState [] = Inr gameState"
| "makeMoves gameState (t # ts) =
     (case makeMove gameState t of Inl e \<Rightarrow> Inl e | Inr gs' \<Rightarrow> makeMoves gs' ts)"

text \<open>
  \<open>handleMove\<close> of the application component: the React state is \<open>GameState | null\<close>;
  the result is the state after the handler ran.
\<close>

definition handleMove :: "GameState option \<Rightarrow> Coordinate \<Rightarrow> error + GameState option" where
  "handleMove st target =
     (case st of
        None \<Rightarrow> Inr None
      | Some gameState \<Rightarrow>
          if isComplete gameState then Inr (Some gameState)
          else (case makeMove gameState target of
                  Inl e \<Rightarrow> Inl e
                | Inr newState \<Rightarrow> Inr (Some newState)))"

section \<open>Solvability check (game/generator.ts)\<close>

text \<open>
  The two \<open>Set<string>\<close> values of the check hold keys \<open>row,col\<close>; a key determines
  its coordinate and conversely, so the sets are modelled as sets of coordinates.
\<close>

definition DIRECTIONS :: "Coordinate list" where
  "DIRECTIONS =
     [\<lparr>row = -1, col = 0\<rparr>, \<lparr>row = 1, col = 0\<rparr>, \<lparr>row = 0, col = -1\<rparr>, \<lparr>row = 0, col = 1\<rparr>,
      \<lparr>row = -1, col = -1\<rparr>, \<lparr>row = -1, col = 1\<rparr>, \<lparr>row = 1, col = -1\<rparr>, \<lparr>row = 1, col = 1\<rparr>]"

definition numberPositions :: "InitialValue list \<Rightarrow> (int \<rightharpoonup> Coordinate)" where
  "numberPositions ivs =
     foldl (\<lambda>m iv. m(iv_value iv \<mapsto> \<lparr>row = row iv, col = col iv\<rparr>)) Map.empty ivs"

fun isBlocked :: "Wall list \<Rightarrow> Coordinate \<Rightarrow> Coordinate \<Rightarrow> bool" where
  "isBlocked [] from to = False"
| "isBlocked (wall # ws) from to =
     (let rowDiff = row to - row from; colDiff = col to - col from in
      if orientation wall = horizontal then
        (if rowDiff \<noteq> 0 \<and> colDiff = 0 \<and> col wall = col from \<and>
            row wall \<ge> min (row from) (row to) \<and> row wall < max (row from) (row to)
         then True else isBlocked ws from to)
      else
        (if colDiff \<noteq> 0 \<and> rowDiff = 0 \<and> row wall = row from \<and>
            col wall \<ge> min (col from) (col to) \<and> col wall < max (col from) (col to)
         then True else isBlocked ws from to))"

text \<open>A queue entry \<open>{ pos, path }\<close> of the breadth-first search.\<close>

type_synonym QueueEntry = "Coordinate \<times> Coordinate list"

text \<open>
  The loop \<open>for (const dir of DIRECTIONS)\<close> inside the search: the state is the pair of
  \<open>localVisited\<close> and the queue.
\<close>

fun exploreDirs ::
  "Level \<Rightarrow> Coordinate set \<Rightarrow> Coordinate \<Rightarrow> Coordinate list \<Rightarrow> Coordinate list \<Rightarrow>
   Coordinate set \<times> QueueEntry list \<Rightarrow> Coordinate set \<times> QueueEntry list" where
  "exploreDirs lv visited pos path [] st = st"
| "exploreDirs lv visited pos path (dir # dirs) (localVisited, queue) =
     (let next = \<lparr>row = row pos + row dir, col = col pos + col dir\<rparr> in
      if row next \<ge> 0 \<and> row next < rows lv \<and> col next \<ge> 0 \<and> col next < cols lv \<and>
         next \<notin> localVisited \<and> next \<notin> visited \<and> \<not> isBlocked (walls lv) pos next
      then exploreDirs lv visited pos path dirs
             (insert next localVisited, queue @ [(next, path @ [next])])
      else exploreDirs lv visited pos path dirs (localVisited, queue))"

text \<open>The cells inside the grid; the measure of the search counts those not yet seen.\<close>

definition gridCells :: "Level \<Rightarrow> Coordinate set" where
  "gridCells lv = {p. 0 \<le> row p \<and> row p < rows lv \<and> 0 \<le> col p \<and> col p < cols lv}"

text \<open>
  The loop \<open>while (queue.length > 0)\<close> of \<open>findPath\<close>. Each iteration removes one queue
  entry, and each entry added marks a new cell of the grid, so the loop ends.
\<close>

function findPath_loop ::
  "Level \<Rightarrow> Coordinate set \<Rightarrow> Coordinate \<Rightarrow> QueueEntry list \<Rightarrow> Coordinate set \<Rightarrow>
   Coordinate list option" where
  "findPath_loop lv visited end [] localVisited = None"
| "findPath_loop lv visited end ((pos, path) # queue) localVisited =
     (if row pos = row end \<and> col pos = col end then Some path
      else
        (case exploreDirs lv visited pos path DIRECTIONS (localVisited, queue) of
           (localVisited', queue') \<Rightarrow> findPath_loop lv visited end queue' localVisited'))"
  by pat_completeness auto
termination
proof (relation "measure (\<lambda>(lv, visited, end, queue, localVisited).
                   2 * card (gridCells lv - localVisited) + length queue)")
  show "wf (measure (\<lambda>(lv, visited, end, queue, localVisited).
                   2 * card (gridCells lv - localVisited) + length queue))"
    by simp
next
  fix lv :: Level and visited :: "Coordinate set" and "end" pos :: Coordinate
    and path :: "Coordinate list" and queue :: "QueueEntry list"
    and localVisited x :: "Coordinate set" and y :: "QueueEntry list"
  assume r: "(x, y) = exploreDirs lv visited pos path DIRECTIONS (localVisited, queue)"
  have "gridCells lv \<subseteq> (\<lambda>(r, c). \<lparr>row = r, col = c\<rparr>) ` ({0..<rows lv} \<times> {0..<cols lv})"
  proof
    fix p assume "p \<in> gridCells lv"
    then have "(row p, col p) \<in> {0..<rows lv} \<times> {0..<cols lv}"
      by (simp add: gridCells_def)
    moreover have "p = (\<lambda>(r, c). \<lparr>row = r, col = c\<rparr>) (row p, col p)" by simp
    ultimately show "p \<in> (\<lambda>(r, c). \<lparr>row = r, col = c\<rparr>) ` ({0..<rows lv} \<times> {0..<cols lv})"
      by (rule rev_image_eqI)
  qed
  then have fin: "finite (gridCells lv)" by (rule finite_subset) simp
  have step: "2 * card (gridCells lv - L') + length q' \<le> 2 * card (gridCells lv - L) + length q"
    if "exploreDirs lv visited pos path dirs (L, q) = (L', q')" for dirs L q L' q'
    using that
  proof (induction dirs arbitrary: L q)
    case Nil
    then show ?case by simp
  next
    case (Cons dir dirs)
    let ?next = "\<lparr>row = row pos + row dir, col = col pos + col dir\<rparr>"
    show ?case
    proof (cases "?next \<in> gridCells lv \<and> ?next \<notin> L \<and> ?next \<notin> visited
                  \<and> \<not> isBlocked (walls lv) pos ?next")
      case True
      then have "exploreDirs lv visited pos path dirs
                   (insert ?next L, q @ [(?next, path @ [?next])]) = (L', q')"
        using Cons.prems by (simp add: gridCells_def Let_def)
      from Cons.IH [OF this]
      have a: "2 * card (gridCells lv - L') + length q'
                 \<le> 2 * card (gridCells lv - insert ?next L) + (length q + 1)"
        by simp
      have m: "?next \<in> gridCells lv - L" using True by simp
      have "gridCells lv - insert ?next L = (gridCells lv - L) - {?next}" by auto
      then have "card (gridCells lv - insert ?next L) = card (gridCells lv - L) - 1"
        using m by (simp add: card_Diff_singleton)
      moreover have "0 < card (gridCells lv - L)"
        using m fin by (metis card_gt_0_iff empty_iff finite_Diff)
      ultimately show ?thesis using a by linarith
    next
      case False
      then have "exploreDirs lv visited pos path dirs (L, q) = (L', q')"
        using Cons.prems by (auto simp: gridCells_def Let_def split: if_splits)
      from Cons.IH [OF this] show ?thesis .
    qed
  qed
  from step [OF r [symmetric]]
  show "((lv, visited, end, y, x), (lv, visited, end, (pos, path) # queue, localVisited))
          \<in> measure (\<lambda>(lv, visited, end, queue, localVisited).
                   2 * card (gridCells lv - localVisited) + length queue)"
    by simp
qed

definition findPath :: "Level \<Rightarrow> Coordinate \<Rightarrow> Coordinate \<Rightarrow> Coordinate set \<Rightarrow> Coordinate list option" where
  "findPath lv start end visited = findPath_loop lv visited end [(start, [start])] {start}"

text \<open>
  The loop \<open>for (let i = 1; i <= maxNumber; i++)\<close> over the values of \<open>i\<close> still to
  come. \<open>Inr None\<close> is the early \<open>return false\<close>; a clue number without a position
  gives \<open>undefined\<close>, whose first property read throws.
\<close>

fun visitNumbers ::
  "Level \<Rightarrow> (int \<rightharpoonup> Coordinate) \<Rightarrow> int list \<Rightarrow> Coordinate set \<Rightarrow> error + Coordinate set option" where
  "visitNumbers lv positions [] visited = Inr (Some visited)"
| "visitNumbers lv positions (i # is) visited =
     (case positions i of
        None \<Rightarrow> Inl TypeError
      | Some currentPos \<Rightarrow>
          if i > 1 then
            (case positions (i - 1) of
               None \<Rightarrow> Inl TypeError
             | Some prevPos \<Rightarrow>
                 (case findPath lv prevPos currentPos visited of
                    None \<Rightarrow> Inr None
                  | Some path \<Rightarrow>
                      visitNumbers lv positions is
                        (insert currentPos (visited \<union> set (butlast path)))))
          else visitNumbers lv positions is (insert currentPos visited))"

definition visitAllNumbers :: "Level \<Rightarrow> error + Coordinate set option" where
  "visitAllNumbers lv =
     visitNumbers lv (numberPositions (initialValues lv))
       (case mathMax (map iv_value (initialValues lv)) of None \<Rightarrow> [] | Some maxNumber \<Rightarrow> [1..maxNumber])
       {}"

definition isPuzzleSolvable :: "Level \<Rightarrow> error + bool" where
  "isPuzzleSolvable lv =
     (case visitAllNumbers lv of
        Inl e \<Rightarrow> Inl e
      | Inr None \<Rightarrow> Inr False
      | Inr (Some visited) \<Rightarrow> Inr (int (card visited) \<le> rows lv * cols lv))"

section \<open>Level generation (game/generator.ts)\<close>

text \<open>
  \<open>Math.random\<close> is the only input of \<open>generateLevel\<close> besides its arguments. Its
  outcomes are given to the model explicitly, per attempt: the result of
  \<open>generateHamiltonianPath\<close> (the random depth-first search is not modelled), the
  successive values of \<open>Math.floor(Math.random() * path.length)\<close>, the successive
  outcomes of \<open>Math.random() < wallDensity\<close>, and the level id. A loop that needs more
  draws than were supplied has not returned: the result is \<open>None\<close>.
  \<open>Set<number>\<close> is modelled as the list of its elements in insertion order.
\<close>

datatype Difficulty = easy | medium | hard

record AttemptRandom =
  pathDraw :: "Coordinate list option"
  indexDraws :: "int list"
  wallDraws :: "bool list"
  idDraw :: string

record RandomSource =
  attemptDraws :: "AttemptRandom list"
  fallbackDraw :: AttemptRandom

definition setAdd :: "int \<Rightarrow> int list \<Rightarrow> int list" where
  "setAdd x xs = (if x \<in> set xs then xs else xs @ [x])"

definition numberCountFor :: "Difficulty \<Rightarrow> int \<Rightarrow> int" where
  "numberCountFor difficulty totalCells =
     (case difficulty of
        easy \<Rightarrow> totalCells div 3
      | medium \<Rightarrow> totalCells div 4
      | hard \<Rightarrow> totalCells div 5)"

fun markIndices :: "int \<Rightarrow> int \<Rightarrow> int list \<Rightarrow> int list \<Rightarrow> int list option" where
  "markIndices numberCount pathLength [] indicesToMark =
     (if int (length indicesToMark) < numberCount \<and> int (length indicesToMark) < pathLength
      then None else Some indicesToMark)"
| "markIndices numberCount pathLength (idx # draws) indicesToMark =
     (if int (length indicesToMark) < numberCount \<and> int (length indicesToMark) < pathLength
      then markIndices numberCount pathLength draws (setAdd idx indicesToMark)
      else Some indicesToMark)"

fun markIndicesFallback :: "int \<Rightarrow> int list \<Rightarrow> int list \<Rightarrow> int list option" where
  "markIndicesFallback numberCount [] indicesToMark =
     (if int (length indicesToMark) < numberCount then None else Some indicesToMark)"
| "markIndicesFallback numberCount (idx # draws) indicesToMark =
     (if int (length indicesToMark) < numberCount
      then markIndicesFallback numberCount draws (setAdd idx indicesToMark)
      else Some indicesToMark)"

fun placeNumbers ::
  "Coordinate list \<Rightarrow> int list \<Rightarrow> int \<Rightarrow> InitialValue list \<Rightarrow> error + InitialValue list" where
  "placeNumbers path [] i ivs = Inr ivs"
| "placeNumbers path (pathIdx # rest) i ivs =
     (if pathIdx = 0 then placeNumbers path rest (i + 1) ivs
      else
        (case at path pathIdx of
           None \<Rightarrow> Inl TypeError
         | Some pos \<Rightarrow>
             placeNumbers path rest (i + 1)
               (ivs @ [\<lparr>row = row pos, col = col pos, iv_value = i + 1\<rparr>])))"

fun isWallBlocking :: "Wall \<Rightarrow> Coordinate list \<Rightarrow> bool" where
  "isWallBlocking w (u # v # rest) =
     (if orientation w = horizontal then
        (if col u = col w \<and> col v = col w \<and>
            ((row u = row w \<and> row v = row w + 1) \<or> (row u = row w + 1 \<and> row v = row w))
         then True else isWallBlocking w (v # rest))
      else
        (if row u = row w \<and> row v = row w \<and>
            ((col u = col w \<and> col v = col w + 1) \<or> (col u = col w + 1 \<and> col v = col w))
         then True else isWallBlocking w (v # rest)))"
| "isWallBlocking w path = False"

fun placeWalls ::
  "int \<Rightarrow> int \<Rightarrow> Coordinate list \<Rightarrow> (int \<times> int) list \<Rightarrow> bool list \<Rightarrow> Wall list \<Rightarrow> Wall list option" where
  "placeWalls nrows ncols path [] draws ws = Some ws"
| "placeWalls nrows ncols path ((r, c) # cells) draws ws =
     (if r < nrows - 1 then
        (case draws of
           [] \<Rightarrow> None
         | h # draws1 \<Rightarrow>
             (let w = \<lparr>row = r, col = c, orientation = horizontal\<rparr>;
                  ws1 = (if h \<and> \<not> isWallBlocking w path then ws @ [w] else ws)
              in if c < ncols - 1 then
                   (case draws1 of
                      [] \<Rightarrow> None
                    | v # draws2 \<Rightarrow>
                        (let w' = \<lparr>row = r, col = c, orientation = vertical\<rparr>;
                             ws2 = (if v \<and> \<not> isWallBlocking w' path then ws1 @ [w'] else ws1)
                         in placeWalls nrows ncols path cells draws2 ws2))
                 else placeWalls nrows ncols path cells draws1 ws1))
      else if c < ncols - 1 then
        (case draws of
           [] \<Rightarrow> None
         | v # draws2 \<Rightarrow>
             (let w' = \<lparr>row = r, col = c, orientation = vertical\<rparr>;
                  ws2 = (if v \<and> \<not> isWallBlocking w' path then ws @ [w'] else ws)
              in placeWalls nrows ncols path cells draws2 ws2))
      else placeWalls nrows ncols path cells draws ws)"

definition gridScan :: "int \<Rightarrow> int \<Rightarrow> (int \<times> int) list" where
  "gridScan nrows ncols = concat (map (\<lambda>r. map (\<lambda>c. (r, c)) [0..ncols - 1]) [0..nrows - 1])"

definition attempt :: "int \<Rightarrow> int \<Rightarrow> Difficulty \<Rightarrow> AttemptRandom \<Rightarrow> (error + Level option) option" where
  "attempt nrows ncols difficulty rnd =
     (case pathDraw rnd of
        None \<Rightarrow> Some (Inr None)
      | Some path \<Rightarrow>
          (let totalCells = nrows * ncols;
               numberCount = numberCountFor difficulty totalCells
           in case at path 0 of
                None \<Rightarrow> Some (Inl TypeError)
              | Some p0 \<Rightarrow>
                  (case markIndices numberCount (int (length path)) (indexDraws rnd)
                          (setAdd (int (length path) - 1) (setAdd 0 [])) of
                     None \<Rightarrow> None
                   | Some indicesToMark \<Rightarrow>
                       (case placeNumbers path (sort indicesToMark) 0
                               [\<lparr>row = row p0, col = col p0, iv_value = 1\<rparr>] of
                          Inl e \<Rightarrow> Some (Inl e)
                        | Inr ivs \<Rightarrow>
                            (case placeWalls nrows ncols path (gridScan nrows ncols) (wallDraws rnd) [] of
                               None \<Rightarrow> None
                             | Some ws \<Rightarrow>
                                 (let lv = \<lparr>level_id = idDraw rnd, rows = nrows, cols = ncols,
                                            initialValues = ivs, walls = ws\<rparr>
                                  in case isPuzzleSolvable lv of
                                       Inl e \<Rightarrow> Some (Inl e)
                                     | Inr solvable \<Rightarrow>
                                         if solvable then Some (Inr (Some lv))
                                         else Some (Inr None)))))))"

definition fallbackLevel :: "int \<Rightarrow> int \<Rightarrow> AttemptRandom \<Rightarrow> (error + Level) option" where
  "fallbackLevel nrows ncols rnd =
     (case pathDraw rnd of
        None \<Rightarrow> Some (Inl TypeError)
      | Some simplePath \<Rightarrow>
          (let numberCount = (nrows * ncols) div 3 in
           case markIndicesFallback numberCount (indexDraws rnd)
                  (setAdd (int (length simplePath) - 1) (setAdd 0 [])) of
             None \<Rightarrow> None
           | Some indicesToMark \<Rightarrow>
               (case at simplePath 0 of
                  None \<Rightarrow> Some (Inl TypeError)
                | Some p0 \<Rightarrow>
                    (case placeNumbers simplePath (sort indicesToMark) 0
                            [\<lparr>row = row p0, col = col p0, iv_value = 1\<rparr>] of
                       Inl e \<Rightarrow> Some (Inl e)
                     | Inr ivs \<Rightarrow>
                         Some (Inr \<lparr>level_id = idDraw rnd, rows = nrows, cols = ncols,
                                     initialValues = ivs, walls = []\<rparr>)))))"

fun attemptLoop ::
  "int \<Rightarrow> int \<Rightarrow> Difficulty \<Rightarrow> int \<Rightarrow> AttemptRandom list \<Rightarrow> AttemptRandom \<Rightarrow> (error + Level) option" where
  "attemptLoop nrows ncols difficulty attempts [] fb =
     (if attempts < 50 then None else fallbackLevel nrows ncols fb)"
| "attemptLoop nrows ncols difficulty attempts (rnd # rnds) fb =
     (if attempts < 50 then
        (case attempt nrows ncols difficulty rnd of
           None \<Rightarrow> None
         | Some (Inl e) \<Rightarrow> attemptLoop nrows ncols difficulty (attempts + 1) rnds fb
         | Some (Inr None) \<Rightarrow> attemptLoop nrows ncols difficulty (attempts + 1) rnds fb
         | Some (Inr (Some lv)) \<Rightarrow> Some (Inr lv))
      else fallbackLevel nrows ncols fb)"

definition generateLevel :: "int \<Rightarrow> int \<Rightarrow> Difficulty \<Rightarrow> RandomSource \<Rightarrow> (error + Level) option" where
  "generateLevel nrows ncols difficulty random =
     attemptLoop nrows ncols difficulty 0 (attemptDraws random) (fallbackDraw random)"

section \<open>Well-formedness predicates\<close>

definition inGrid :: "Cell list list \<Rightarrow> int \<Rightarrow> int \<Rightarrow> bool" where
  "inGrid g r c = (0 \<le> r \<and> r < int (length g) \<and> 0 \<le> c \<and> c < int (length (g ! nat r)))"

definition inBounds :: "Level \<Rightarrow> 'a Coordinate_scheme \<Rightarrow> bool" where
  "inBounds lv p = (0 \<le> row p \<and> row p < rows lv \<and> 0 \<le> col p \<and> col p < cols lv)"

text \<open>
  A state whose grid has the dimensions of its level and whose path stays inside the
  level.
\<close>

definition wellShaped :: "GameState \<Rightarrow> bool" where
  "wellShaped gs =
     (length (grid gs) = nat (rows (level gs)) \<and>
      list_all (\<lambda>rw. length rw = nat (cols (level gs))) (grid gs) \<and>
      list_all (inBounds (level gs)) (currentPath gs))"

section \<open>Example levels and states\<close>

definition co :: "int \<Rightarrow> int \<Rightarrow> Coordinate" where
  "co r c = \<lparr>row = r, col = c\<rparr>"

definition mkCell :: "int \<Rightarrow> int \<Rightarrow> int option \<Rightarrow> int option \<Rightarrow> Cell" where
  "mkCell r c v ord =
     \<lparr>row = r, col = c, cell_value = v, isFixed = (v \<noteq> None), visitedOrder = ord\<rparr>"

text \<open>The 2 x 2 level with clue 1 at (0,0), clue 2 at (1,1) and no walls.\<close>

definition level2x2 :: Level where
  "level2x2 =
     \<lparr>level_id = ''demo2'', rows = 2, cols = 2,
      initialValues = [\<lparr>row = 0, col = 0, iv_value = 1\<rparr>, \<lparr>row = 1, col = 1, iv_value = 2\<rparr>],
      walls = []\<rparr>"

text \<open>A state over \<open>level2x2\<close>, given by the four visit orders, the path and the flags.\<close>

definition state2x2 ::
  "int option \<Rightarrow> int option \<Rightarrow> int option \<Rightarrow> int option \<Rightarrow> Coordinate list \<Rightarrow> bool \<Rightarrow> int
   \<Rightarrow> GameState" where
  "state2x2 a b c d path done n =
     \<lparr>level = level2x2,
      grid = [[mkCell 0 0 (Some 1) a, mkCell 0 1 None b],
              [mkCell 1 0 None c, mkCell 1 1 (Some 2) d]],
      currentPath = path, isComplete = done, lastVisitedNumber = n\<rparr>"

text \<open>
  A 3 x 3 level as \<open>generateLevel\<close> builds it: the path \<open>genPath\<close>, clues at its
  indices 0, 5 and 8, and one wall that no edge of the path crosses.
\<close>

definition genPath :: "Coordinate list" where
  "genPath = [co 2 0, co 1 0, co 0 0, co 0 1, co 0 2, co 1 2, co 1 1, co 2 1, co 2 2]"

definition level3x3 :: Level where
  "level3x3 =
     \<lparr>level_id = ''demo3'', rows = 3, cols = 3,
      initialValues = [\<lparr>row = 2, col = 0, iv_value = 1\<rparr>, \<lparr>row = 1, col = 2, iv_value = 2\<rparr>,
                       \<lparr>row = 2, col = 2, iv_value = 3\<rparr>],
      walls = [\<lparr>row = 1, col = 2, orientation = horizontal\<rparr>]\<rparr>"

definition genRandom :: AttemptRandom where
  "genRandom =
     \<lparr>pathDraw = Some genPath, indexDraws = [5],
      wallDraws = [False, False, False, False, False, False, False, False, False, True,
                   False, False],
      idDraw = ''demo3''\<rparr>"

text \<open>The state over \<open>level3x3\<close> after the move to (2,1).\<close>

definition state3x3 :: GameState where
  "state3x3 =
     \<lparr>level = level3x3,
      grid = [[mkCell 0 0 None None, mkCell 0 1 None None, mkCell 0 2 None None],
              [mkCell 1 0 None None, mkCell 1 1 None None, mkCell 1 2 (Some 2) None],
              [mkCell 2 0 (Some 1) (Some 1), mkCell 2 1 None (Some 2), mkCell 2 2 (Some 3) None]],
      currentPath = [co 2 0, co 2 1], isComplete = False, lastVisitedNumber = 1\<rparr>"

text \<open>A 3 x 3 level whose second segment ends on a cell the first segment used.\<close>

definition levelCut :: Level where
  "levelCut =
     \<lparr>level_id = ''cut'', rows = 3, cols = 3,
      initialValues = [\<lparr>row = 0, col = 0, iv_value = 1\<rparr>, \<lparr>row = 2, col = 2, iv_value = 2\<rparr>,
                       \<lparr>row = 1, col = 1, iv_value = 3\<rparr>],
      walls = []\<rparr>"

text \<open>A level without a clue of value 1, and the state \<open>initializeGame\<close> builds for it.\<close>

definition levelNoStart :: Level where
  "levelNoStart =
     \<lparr>level_id = ''nostart'', rows = 1, cols = 2,
      initialValues = [\<lparr>row = 0, col = 1, iv_value = 2\<rparr>], walls = []\<rparr>"

definition stateNoStart :: GameState where
  "stateNoStart =
     \<lparr>level = levelNoStart, grid = [[mkCell 0 0 None None, mkCell 0 1 (Some 2) None]],
      currentPath = [], isComplete = False, lastVisitedNumber = 0\<rparr>"

text \<open>
  Random outcomes under which every attempt of \<open>generateLevel 3 3\<close> starts its search
  on a cell from which the 3 x 3 grid has no Hamiltonian path, and the fallback finds
  the row-by-row path from (0,0).
\<close>

definition noPath :: AttemptRandom where
  "noPath = \<lparr>pathDraw = None, indexDraws = [], wallDraws = [], idDraw = ''none''\<rparr>"

definition snake3x3 :: "Coordinate list" where
  "snake3x3 = [co 0 0, co 0 1, co 0 2, co 1 2, co 1 1, co 1 0, co 2 0, co 2 1, co 2 2]"

definition fallbackRandom :: RandomSource where
  "fallbackRandom =
     \<lparr>attemptDraws = replicate 50 noPath,
      fallbackDraw = \<lparr>pathDraw = Some snake3x3, indexDraws = [4], wallDraws = [],
                       idDraw = ''fb''\<rparr>\<rparr>"

text \<open>An attempt of the main pipeline on the same path, with no wall proposed.\<close>

definition hardRandom :: AttemptRandom where
  "hardRandom =
     \<lparr>pathDraw = Some snake3x3, indexDraws = [],
      wallDraws = [False, False, False, False, False, False, False, False, False, False,
                   False, False],
      idDraw = ''main''\<rparr>"

section \<open>Auxiliary lemmas\<close>

lemma error_eq: "(a::error) = b"
  by (cases a; cases b) simp

lemma cellAt_Inr: "cellAt g r c = Inr cell \<longleftrightarrow> inGrid g r c \<and> cell = g ! nat r ! nat c"
  by (auto simp: cellAt_def at_def inGrid_def split: option.splits if_splits)

lemma cellAt_Inl: "cellAt g r c = Inl e \<longleftrightarrow> \<not> inGrid g r c"
  by (cases e) (auto simp: cellAt_def at_def inGrid_def split: option.splits if_splits)

lemma setCell_Inr:
  "setCell g r c f = Inr g' \<longleftrightarrow>
     inGrid g r c \<and> g' = g[nat r := (g ! nat r)[nat c := f (g ! nat r ! nat c)]]"
  by (auto simp: setCell_def cellAt_Inr cellAt_Inl split: sum.splits)

lemma setCell_Inl: "setCell g r c f = Inl e \<longleftrightarrow> \<not> inGrid g r c"
  by (auto simp: setCell_def cellAt_Inr cellAt_Inl error_eq split: sum.splits)

lemma map_update_same: "K y = K (xs ! i) \<Longrightarrow> map K (xs[i := y]) = map K xs"
  by (induction xs arbitrary: i) (auto split: nat.splits)

lemma setCell_shape: "setCell g r c f = Inr g' \<Longrightarrow> map length g' = map length g"
  by (auto simp: setCell_Inr inGrid_def map_update list_update_same_conv)

lemma inGrid_shape: "map length g' = map length g \<Longrightarrow> inGrid g' r c = inGrid g r c"
proof -
  assume h: "map length g' = map length g"
  then have l: "length g' = length g" by (metis length_map)
  have "\<And>i. i < length g \<Longrightarrow> length (g' ! i) = length (g ! i)"
    using h l by (metis nth_map)
  then show ?thesis using l by (auto simp: inGrid_def)
qed

lemma setCell_frame:
  assumes "setCell g r c f = Inr g'" and "\<And>cell. K (f cell) = K cell"
  shows "map (map K) g' = map (map K) g"
  using assms by (simp add: setCell_Inr map_update_same)

lemma findIndex_bounds: "-1 \<le> findIndex P xs \<and> findIndex P xs < int (length xs)"
  by (induction xs) (auto simp: Let_def)

lemma findIndex_none: "findIndex P xs = -1 \<longleftrightarrow> (\<forall>x\<in>set xs. \<not> P x)"
proof (induction xs)
  case Nil then show ?case by simp
next
  case (Cons a xs)
  have "-1 \<le> findIndex P xs" using findIndex_bounds by blast
  with Cons show ?case by (auto simp: Let_def)
qed


lemma samePos_eq: "samePos (t::Coordinate) p \<longleftrightarrow> p = t"
  by (auto simp: samePos_def)

lemma emptyGrid_shape:
  "length (emptyGrid nr nc) = nat nr \<and> list_all (\<lambda>rw. length rw = nat nc) (emptyGrid nr nc)"
  by (auto simp: emptyGrid_def list_all_iff)

lemma inGrid_emptyGrid: "inGrid (emptyGrid nr nc) r c \<longleftrightarrow> 0 \<le> r \<and> r < nr \<and> 0 \<le> c \<and> c < nc"
  by (auto simp: inGrid_def emptyGrid_def split: if_splits)

lemma stampValues_shape: "stampValues ivs g = Inr g' \<Longrightarrow> map length g' = map length g"
proof (induction ivs arbitrary: g)
  case Nil then show ?case by simp
next
  case (Cons iv ivs)
  from Cons.prems obtain g1 where g1: "setCell g (row iv) (col iv)
             (\<lambda>cell. cell\<lparr>cell_value := Some (iv_value iv), isFixed := True\<rparr>) = Inr g1"
     and r: "stampValues ivs g1 = Inr g'"
    by (auto split: sum.splits)
  have "map length g' = map length g1" using Cons.IH [OF r] .
  also have "\<dots> = map length g" using g1 by (rule setCell_shape)
  finally show ?case .
qed

lemma stampValues_order:
  "stampValues ivs g = Inr g' \<Longrightarrow> map (map visitedOrder) g' = map (map visitedOrder) g"
proof (induction ivs arbitrary: g)
  case Nil then show ?case by simp
next
  case (Cons iv ivs)
  from Cons.prems obtain g1 where g1: "setCell g (row iv) (col iv)
             (\<lambda>cell. cell\<lparr>cell_value := Some (iv_value iv), isFixed := True\<rparr>) = Inr g1"
     and r: "stampValues ivs g1 = Inr g'"
    by (auto split: sum.splits)
  have "map (map visitedOrder) g' = map (map visitedOrder) g1" using Cons.IH [OF r] .
  also have "\<dots> = map (map visitedOrder) g" using g1 by (rule setCell_frame) simp
  finally show ?case .
qed

lemma stampValues_total:
  "list_all (\<lambda>iv. inGrid g (row iv) (col iv)) ivs \<Longrightarrow> \<exists>g'. stampValues ivs g = Inr g'"
proof (induction ivs arbitrary: g)
  case Nil then show ?case by simp
next
  case (Cons iv ivs)
  from Cons.prems have a: "inGrid g (row iv) (col iv)" by simp
  then obtain g1 where g1: "setCell g (row iv) (col iv)
             (\<lambda>cell. cell\<lparr>cell_value := Some (iv_value iv), isFixed := True\<rparr>) = Inr g1"
    by (simp add: setCell_Inr)
  then have "map length g1 = map length g" by (rule setCell_shape)
  then have "list_all (\<lambda>iv. inGrid g1 (row iv) (col iv)) ivs"
    using Cons.prems by (simp add: inGrid_shape [of g1 g])
  from Cons.IH [OF this] show ?case using g1 by simp
qed

lemma stampValues_Inr_inGrid:
  "stampValues ivs g = Inr g' \<Longrightarrow> list_all (\<lambda>iv. inGrid g (row iv) (col iv)) ivs"
proof (induction ivs arbitrary: g)
  case Nil then show ?case by simp
next
  case (Cons iv ivs)
  from Cons.prems obtain g1 where g1: "setCell g (row iv) (col iv)
             (\<lambda>cell. cell\<lparr>cell_value := Some (iv_value iv), isFixed := True\<rparr>) = Inr g1"
     and r: "stampValues ivs g1 = Inr g'"
    by (auto split: sum.splits)
  have s: "map length g1 = map length g" using g1 by (rule setCell_shape)
  have "list_all (\<lambda>iv. inGrid g1 (row iv) (col iv)) ivs" using Cons.IH [OF r] .
  then show ?case using g1 by (simp add: inGrid_shape [OF s] setCell_Inr)
qed

lemma clearVisited_shape: "clearVisited ps g = Inr g' \<Longrightarrow> map length g' = map length g"
proof (induction ps arbitrary: g)
  case Nil then show ?case by simp
next
  case (Cons p ps)
  from Cons.prems obtain g1
    where g1: "setCell g (row p) (col p) (\<lambda>cell. cell\<lparr>visitedOrder := None\<rparr>) = Inr g1"
      and r: "clearVisited ps g1 = Inr g'"
    by (auto split: sum.splits)
  have "map length g' = map length g1" using Cons.IH [OF r] .
  also have "\<dots> = map length g" using g1 by (rule setCell_shape)
  finally show ?case .
qed

lemma clearVisited_frame:
  assumes "clearVisited ps g = Inr g'" and "\<And>cell v. K (cell\<lparr>visitedOrder := v\<rparr>) = K cell"
  shows "map (map K) g' = map (map K) g"
  using assms(1)
proof (induction ps arbitrary: g)
  case Nil then show ?case by simp
next
  case (Cons p ps)
  from Cons.prems obtain g1
    where g1: "setCell g (row p) (col p) (\<lambda>cell. cell\<lparr>visitedOrder := None\<rparr>) = Inr g1"
      and r: "clearVisited ps g1 = Inr g'"
    by (auto split: sum.splits)
  have "map (map K) g' = map (map K) g1" using Cons.IH [OF r] .
  also have "\<dots> = map (map K) g" using g1 by (rule setCell_frame) (rule assms(2))
  finally show ?case .
qed

lemma clearVisited_total:
  "list_all (\<lambda>p. inGrid g (row p) (col p)) ps \<Longrightarrow> \<exists>g'. clearVisited ps g = Inr g'"
proof (induction ps arbitrary: g)
  case Nil then show ?case by simp
next
  case (Cons p ps)
  from Cons.prems have "inGrid g (row p) (col p)" by simp
  then obtain g1
    where g1: "setCell g (row p) (col p) (\<lambda>cell. cell\<lparr>visitedOrder := None\<rparr>) = Inr g1"
    by (simp add: setCell_Inr)
  then have "map length g1 = map length g" by (rule setCell_shape)
  then have "list_all (\<lambda>p. inGrid g1 (row p) (col p)) ps"
    using Cons.prems by (simp add: inGrid_shape [of g1 g])
  from Cons.IH [OF this] show ?case using g1 by simp
qed

lemma recalcLastVisited_total:
  "list_all (\<lambda>p. inGrid g (row p) (col p)) ps \<Longrightarrow> \<exists>n. recalcLastVisited ps g a = Inr n"
proof (induction ps arbitrary: a)
  case Nil then show ?case by simp
next
  case (Cons p ps)
  from Cons.prems have "inGrid g (row p) (col p)" by simp
  then obtain cell where c: "cellAt g (row p) (col p) = Inr cell" by (simp add: cellAt_Inr)
  from Cons.prems have "list_all (\<lambda>p. inGrid g (row p) (col p)) ps" by simp
  from Cons.IH [OF this] show ?case using c by (simp split: option.splits)
qed

lemma rewindTo_frame:
  assumes "rewindTo gs i = Inr gs'" and "\<And>cell v. K (cell\<lparr>visitedOrder := v\<rparr>) = K cell"
  shows "level gs' = level gs \<and> map (map K) (grid gs') = map (map K) (grid gs)"
proof -
  from assms(1) obtain newGrid n
    where c: "clearVisited (drop (nat (i + 1)) (currentPath gs)) (grid gs) = Inr newGrid"
      and g: "gs' = gs\<lparr>grid := newGrid, currentPath := take (nat (i + 1)) (currentPath gs),
                      lastVisitedNumber := n, isComplete := False\<rparr>"
    by (auto simp: rewindTo_def Let_def split: sum.splits)
  have "map (map K) newGrid = map (map K) (grid gs)"
    using c assms(2) by (rule clearVisited_frame)
  then show ?thesis using g by simp
qed

lemma normalMove_frame:
  assumes "normalMove gs t = Inr gs'" and "\<And>cell v. K (cell\<lparr>visitedOrder := v\<rparr>) = K cell"
  shows "level gs' = level gs \<and> map (map K) (grid gs') = map (map K) (grid gs)"
proof -
  from assms(1) obtain newGrid
    where c: "setCell (grid gs) (row t) (col t)
                (\<lambda>cell. cell\<lparr>visitedOrder := Some (int (length (currentPath gs)) + 1)\<rparr>) = Inr newGrid"
      and g: "level gs' = level gs \<and> grid gs' = newGrid"
    by (auto simp: normalMove_def Let_def split: sum.splits)
  have "map (map K) newGrid = map (map K) (grid gs)"
    using c by (rule setCell_frame) (rule assms(2))
  then show ?thesis using g by simp
qed

lemma makeMove_keeps:
  assumes "makeMove gs t = Inr gs'" and "\<And>cell v. K (cell\<lparr>visitedOrder := v\<rparr>) = K cell"
  shows "level gs' = level gs \<and> map (map K) (grid gs') = map (map K) (grid gs)"
proof (cases "findIndex (samePos t) (currentPath gs) \<noteq> -1
              \<and> findIndex (samePos t) (currentPath gs) < int (length (currentPath gs)) - 1")
  case True
  then have "rewindTo gs (findIndex (samePos t) (currentPath gs)) = Inr gs'"
    using assms(1) by (simp add: makeMove_def Let_def)
  then show ?thesis using assms(2) by (rule rewindTo_frame)
next
  case False
  then have m: "(case isValidMove gs t of Inl e \<Rightarrow> Inl e
        | Inr valid \<Rightarrow> if \<not> valid then Inr gs else normalMove gs t) = Inr gs'"
    using assms(1) by (auto simp: makeMove_def Let_def split: if_splits)
  show ?thesis
  proof (cases "isValidMove gs t")
    case (Inl e) with m show ?thesis by simp
  next
    case (Inr valid)
    show ?thesis
    proof (cases valid)
      case True
      with m Inr have "normalMove gs t = Inr gs'" by simp
      then show ?thesis using assms(2) by (rule normalMove_frame)
    next
      case False
      with m Inr show ?thesis by simp
    qed
  qed
qed

lemma wellShaped_inGrid:
  assumes "wellShaped gs" and "inBounds (level gs) p"
  shows "inGrid (grid gs) (row p) (col p)"
proof -
  from assms have r: "nat (row p) < length (grid gs)"
    by (simp add: wellShaped_def inBounds_def)
  then have "grid gs ! nat (row p) \<in> set (grid gs)" by simp
  then have "length (grid gs ! nat (row p)) = nat (cols (level gs))"
    using assms(1) by (simp add: wellShaped_def list_all_iff)
  then show ?thesis using assms r by (simp add: inGrid_def inBounds_def wellShaped_def)
qed

lemma wellShaped_path:
  "wellShaped gs \<Longrightarrow> list_all (\<lambda>p. inGrid (grid gs) (row p) (col p)) (currentPath gs)"
  using wellShaped_inGrid by (auto simp: list_all_iff wellShaped_def)

lemma isValidMove_total:
  assumes "wellShaped gs"
  shows "\<exists>b. isValidMove gs t = Inr b"
proof (cases "inBounds (level gs) t")
  case True
  then have "inGrid (grid gs) (row t) (col t)" using assms wellShaped_inGrid by blast
  then obtain cell where "cellAt (grid gs) (row t) (col t) = Inr cell"
    by (simp add: cellAt_Inr)
  then show ?thesis by (auto simp: isValidMove_def Let_def)
next
  case False
  then show ?thesis by (auto simp: isValidMove_def Let_def inBounds_def)
qed

lemma isValidMove_inBounds: "isValidMove gs t = Inr True \<Longrightarrow> inBounds (level gs) t"
  by (auto simp: isValidMove_def Let_def inBounds_def split: if_splits sum.splits)

lemma rewindTo_total:
  assumes "wellShaped gs"
  shows "\<exists>gs'. rewindTo gs i = Inr gs'"
proof -
  let ?P = "\<lambda>g p. inGrid g (row p) (col p)"
  have all: "list_all (?P (grid gs)) (currentPath gs)" using assms by (rule wellShaped_path)
  then have "list_all (?P (grid gs)) (drop (nat (i + 1)) (currentPath gs))"
    by (auto simp: list_all_iff dest: in_set_dropD)
  then obtain newGrid
    where c: "clearVisited (drop (nat (i + 1)) (currentPath gs)) (grid gs) = Inr newGrid"
    using clearVisited_total by blast
  then have s: "map length newGrid = map length (grid gs)" by (rule clearVisited_shape)
  have "list_all (?P (grid gs)) (take (nat (i + 1)) (currentPath gs))"
    using all by (auto simp: list_all_iff dest: in_set_takeD)
  then have "list_all (?P newGrid) (take (nat (i + 1)) (currentPath gs))"
    by (simp add: inGrid_shape [OF s])
  then obtain n where "recalcLastVisited (take (nat (i + 1)) (currentPath gs)) newGrid 0 = Inr n"
    using recalcLastVisited_total by blast
  then show ?thesis using c by (simp add: rewindTo_def Let_def)
qed

lemma normalMove_total:
  assumes "inGrid (grid gs) (row t) (col t)"
  shows "\<exists>gs'. normalMove gs t = Inr gs'"
proof -
  let ?f = "\<lambda>cell. cell\<lparr>visitedOrder := Some (int (length (currentPath gs)) + 1)\<rparr>"
  from assms obtain newGrid where c: "setCell (grid gs) (row t) (col t) ?f = Inr newGrid"
    by (simp add: setCell_Inr)
  then have s: "map length newGrid = map length (grid gs)" by (rule setCell_shape)
  then have "inGrid newGrid (row t) (col t)" using assms by (simp add: inGrid_shape [OF s])
  then obtain cell where "cellAt newGrid (row t) (col t) = Inr cell" by (simp add: cellAt_Inr)
  then show ?thesis using c by (simp add: normalMove_def Let_def)
qed

lemma makeMove_total:
  assumes "wellShaped gs"
  shows "\<exists>gs'. makeMove gs t = Inr gs'"
proof (cases "findIndex (samePos t) (currentPath gs) \<noteq> -1
              \<and> findIndex (samePos t) (currentPath gs) < int (length (currentPath gs)) - 1")
  case True
  then show ?thesis using rewindTo_total [OF assms] by (simp add: makeMove_def Let_def)
next
  case False
  obtain b where b: "isValidMove gs t = Inr b" using isValidMove_total [OF assms] by blast
  show ?thesis
  proof (cases b)
    case True
    with b have "isValidMove gs t = Inr True" by simp
    then have "inBounds (level gs) t" by (rule isValidMove_inBounds)
    then have "inGrid (grid gs) (row t) (col t)" using assms wellShaped_inGrid by blast
    then obtain gs' where "normalMove gs t = Inr gs'" using normalMove_total by blast
    then show ?thesis using False b True by (auto simp: makeMove_def Let_def)
  next
    case False
    then show ?thesis using \<open>\<not> (findIndex (samePos t) (currentPath gs) \<noteq> -1
              \<and> findIndex (samePos t) (currentPath gs) < int (length (currentPath gs)) - 1)\<close> b
      by (auto simp: makeMove_def Let_def)
  qed
qed

lemma findIndex_member: "(t::Coordinate) \<in> set xs \<Longrightarrow> findIndex (samePos t) xs \<noteq> -1"
  by (auto simp: findIndex_none samePos_eq)

lemma findIndex_not_member: "(t::Coordinate) \<notin> set xs \<Longrightarrow> findIndex (samePos t) xs = -1"
  by (auto simp: findIndex_none samePos_eq)

lemma rewindTo_result:
  "rewindTo gs i = Inr gs' \<Longrightarrow>
     currentPath gs' = take (nat (i + 1)) (currentPath gs) \<and> \<not> isComplete gs'"
  by (auto simp: rewindTo_def Let_def split: sum.splits)

lemma makeMove_empty_path: "currentPath gs = [] \<Longrightarrow> makeMove gs t = Inr gs"
  by (simp add: makeMove_def isValidMove_def Let_def)

lemma makeMoves_empty_path: "currentPath gs = [] \<Longrightarrow> makeMoves gs ts = Inr gs"
  by (induction ts) (simp_all add: makeMove_empty_path)

lemma emptyGrid_order: "\<forall>rw\<in>set (emptyGrid nr nc). \<forall>cell\<in>set rw. visitedOrder cell = None"
  by (auto simp: emptyGrid_def)

lemma order_none_iff:
  "(\<forall>rw\<in>set g. \<forall>cell\<in>set rw. visitedOrder cell = None)
     \<longleftrightarrow> (\<forall>rw\<in>set (map (map visitedOrder) g). \<forall>x\<in>set rw. x = None)"
  by auto

lemma gridCells_image:
  "gridCells lv = (\<lambda>(r, c). \<lparr>row = r, col = c\<rparr>) ` ({0..<rows lv} \<times> {0..<cols lv})"
proof
  show "gridCells lv \<subseteq> (\<lambda>(r, c). \<lparr>row = r, col = c\<rparr>) ` ({0..<rows lv} \<times> {0..<cols lv})"
  proof
    fix p assume "p \<in> gridCells lv"
    then have "(row p, col p) \<in> {0..<rows lv} \<times> {0..<cols lv}"
      by (simp add: gridCells_def)
    moreover have "p = (\<lambda>(r, c). \<lparr>row = r, col = c\<rparr>) (row p, col p)" by simp
    ultimately show "p \<in> (\<lambda>(r, c). \<lparr>row = r, col = c\<rparr>) ` ({0..<rows lv} \<times> {0..<cols lv})"
      by (rule rev_image_eqI)
  qed
  show "(\<lambda>(r, c). \<lparr>row = r, col = c\<rparr>) ` ({0..<rows lv} \<times> {0..<cols lv}) \<subseteq> gridCells lv"
    by (auto simp: gridCells_def)
qed

lemma finite_gridCells: "finite (gridCells lv)"
  by (simp add: gridCells_image)

lemma card_gridCells:
  assumes "0 \<le> rows lv" and "0 \<le> cols lv"
  shows "int (card (gridCells lv)) = rows lv * cols lv"
proof -
  have "inj_on (\<lambda>(r, c). \<lparr>row = r, col = c\<rparr>) ({0..<rows lv} \<times> {0..<cols lv})"
    by (auto simp: inj_on_def)
  then have "card (gridCells lv) = card ({0..<rows lv} \<times> {0..<cols lv})"
    by (simp only: gridCells_image card_image)
  also have "\<dots> = nat (rows lv) * nat (cols lv)" by (simp add: card_cartesian_product)
  finally show ?thesis using assms by simp
qed

lemma exploreDirs_paths:
  assumes "exploreDirs lv visited pos path dirs (L, q) = (L', q')"
    and "set path \<subseteq> S" and "gridCells lv \<subseteq> S" and "\<forall>e\<in>set q. set (snd e) \<subseteq> S"
  shows "\<forall>e\<in>set q'. set (snd e) \<subseteq> S"
  using assms(1,4)
proof (induction dirs arbitrary: L q)
  case Nil
  then show ?case by simp
next
  case (Cons dir dirs)
  let ?next = "\<lparr>row = row pos + row dir, col = col pos + col dir\<rparr>"
  show ?case
  proof (cases "?next \<in> gridCells lv \<and> ?next \<notin> L \<and> ?next \<notin> visited
                  \<and> \<not> isBlocked (walls lv) pos ?next")
    case True
    then have e: "exploreDirs lv visited pos path dirs
                   (insert ?next L, q @ [(?next, path @ [?next])]) = (L', q')"
      using Cons.prems(1) by (simp add: gridCells_def Let_def)
    have "?next \<in> S" using True assms(3) by blast
    then have "\<forall>e\<in>set (q @ [(?next, path @ [?next])]). set (snd e) \<subseteq> S"
      using Cons.prems(2) assms(2) by auto
    from Cons.IH [OF e this] show ?thesis .
  next
    case False
    then have "exploreDirs lv visited pos path dirs (L, q) = (L', q')"
      using Cons.prems(1) by (auto simp: gridCells_def Let_def split: if_splits)
    from Cons.IH [OF this Cons.prems(2)] show ?thesis .
  qed
qed

lemma findPath_loop_cells:
  assumes "findPath_loop lv visited end q L = Some path"
    and "gridCells lv \<subseteq> S" and "\<forall>e\<in>set q. set (snd e) \<subseteq> S"
  shows "set path \<subseteq> S"
  using assms
proof (induction lv visited "end" q L rule: findPath_loop.induct)
  case (1 lv visited "end" localVisited)
  then show ?case by simp
next
  case (2 lv visited "end" pos pth queue localVisited)
  show ?case
  proof (cases "row pos = row end \<and> col pos = col end")
    case True
    then have "path = pth" using "2.prems"(1) by simp
    then show ?thesis using "2.prems"(3) by simp
  next
    case False
    obtain L' q' where e: "exploreDirs lv visited pos pth DIRECTIONS (localVisited, queue) = (L', q')"
      by (cases "exploreDirs lv visited pos pth DIRECTIONS (localVisited, queue)") 
    then have r: "findPath_loop lv visited end q' L' = Some path"
      using "2.prems"(1) False by (auto split: if_splits)
    have "\<forall>e\<in>set q'. set (snd e) \<subseteq> S"
    proof (rule exploreDirs_paths [OF e _ "2.prems"(2)])
      show "set pth \<subseteq> S" using "2.prems"(3) by simp
      show "\<forall>e\<in>set queue. set (snd e) \<subseteq> S" using "2.prems"(3) by simp
    qed
    from "2.IH" [OF False e [symmetric] r "2.prems"(2) this] show ?thesis .
  qed
qed

lemma findPath_cells:
  "findPath lv start end visited = Some path \<Longrightarrow> set path \<subseteq> insert start (gridCells lv)"
  unfolding findPath_def
  by (erule findPath_loop_cells) auto

lemma foldl_positions:
  "foldl (\<lambda>m iv. m(iv_value iv \<mapsto> \<lparr>row = row iv, col = col iv\<rparr>)) m0 ivs k = Some p \<Longrightarrow>
     m0 k = Some p \<or> (\<exists>iv\<in>set ivs. p = \<lparr>row = row iv, col = col iv\<rparr>)"
proof (induction ivs arbitrary: m0)
  case Nil
  then show ?case by simp
next
  case (Cons iv ivs)
  from Cons.prems
  have "foldl (\<lambda>m iv. m(iv_value iv \<mapsto> \<lparr>row = row iv, col = col iv\<rparr>))
          (m0(iv_value iv \<mapsto> \<lparr>row = row iv, col = col iv\<rparr>)) ivs k = Some p"
    by (simp only: foldl_Cons)
  from Cons.IH [OF this] show ?case
    by (auto split: if_splits)
qed

lemma numberPositions_cells:
  assumes "list_all (inBounds lv) (initialValues lv)"
    and "numberPositions (initialValues lv) k = Some p"
  shows "p \<in> gridCells lv"
proof -
  from assms(2) obtain iv where "iv \<in> set (initialValues lv)" and "p = \<lparr>row = row iv, col = col iv\<rparr>"
    using foldl_positions [of Map.empty "initialValues lv" k p] by (auto simp: numberPositions_def)
  then show ?thesis using assms(1) by (auto simp: list_all_iff inBounds_def gridCells_def)
qed

lemma visitNumbers_cells:
  assumes "visitNumbers lv positions is visited = Inr (Some v)"
    and "visited \<subseteq> gridCells lv"
    and "\<And>k p. positions k = Some p \<Longrightarrow> p \<in> gridCells lv"
  shows "v \<subseteq> gridCells lv"
  using assms(1,2)
proof (induction "is" arbitrary: visited)
  case Nil
  then show ?case by simp
next
  case (Cons i "is")
  from Cons.prems(1) obtain currentPos where c: "positions i = Some currentPos"
    by (auto split: option.splits)
  then have cc: "currentPos \<in> gridCells lv" by (rule assms(3))
  show ?case
  proof (cases "i > 1")
    case True
    from Cons.prems(1) c True obtain prevPos path
      where p: "positions (i - 1) = Some prevPos"
        and f: "findPath lv prevPos currentPos visited = Some path"
        and r: "visitNumbers lv positions is (insert currentPos (visited \<union> set (butlast path)))
                  = Inr (Some v)"
      by (auto split: option.splits)
    have "prevPos \<in> gridCells lv" using p by (rule assms(3))
    then have "set path \<subseteq> gridCells lv" using findPath_cells [OF f] by auto
    then have "set (butlast path) \<subseteq> gridCells lv"
      by (meson in_set_butlastD subset_iff)
    then have "insert currentPos (visited \<union> set (butlast path)) \<subseteq> gridCells lv"
      using cc Cons.prems(2) by simp
    from Cons.IH [OF r this] show ?thesis .
  next
    case False
    then have r: "visitNumbers lv positions is (insert currentPos visited) = Inr (Some v)"
      using Cons.prems(1) c by simp
    have "insert currentPos visited \<subseteq> gridCells lv" using cc Cons.prems(2) by simp
    from Cons.IH [OF r this] show ?thesis .
  qed
qed

lemma attemptLoop_no_paths:
  assumes "list_all (\<lambda>rnd. pathDraw rnd = None) rnds" and "int (length rnds) = 50 - attempts"
  shows "attemptLoop nrows ncols difficulty attempts rnds fb = fallbackLevel nrows ncols fb"
  using assms
proof (induction rnds arbitrary: attempts)
  case Nil
  then show ?case by simp
next
  case (Cons rnd rnds)
  from Cons.prems have a: "attempts < 50" and n: "pathDraw rnd = None"
    and l: "int (length rnds) = 50 - (attempts + 1)"
    and r: "list_all (\<lambda>rnd. pathDraw rnd = None) rnds"
    by simp_all
  have "attempt nrows ncols difficulty rnd = Some (Inr None)"
    using n by (simp add: attempt_def)
  then show ?case using a Cons.IH [OF r l] by simp
qed

section \<open>Evaluation rules for the examples\<close>

lemmas game_eval = co_def mkCell_def level2x2_def state2x2_def level3x3_def state3x3_def
  levelNoStart_def stateNoStart_def initializeGame_def emptyGrid_def setCell_def cellAt_def
  at_def upto.simps makeMove_def isValidMove_def normalMove_def rewindTo_def samePos_def
  hasWall_def wallBetween_def Let_def inBounds_def wellShaped_def handleMove_def

lemmas check_eval = co_def level3x3_def levelCut_def findPath_def DIRECTIONS_def Let_def
  numberPositions_def visitAllNumbers_def isPuzzleSolvable_def upto.simps card_insert_if
  inBounds_def

lemmas gen_eval = attempt_def fallbackLevel_def numberCountFor_def setAdd_def gridScan_def
  genRandom_def genPath_def snake3x3_def noPath_def at_def

section \<open>The claims\<close>

text \<open>
  Claim C1 (the per-segment search explores only the 4-connected grid graph, and the
  check fails whenever a consecutive clue pair has no such path): the search iterates
  over all eight entries of \<open>DIRECTIONS\<close>, diagonals included, and a diagonal step is
  never blocked by a wall. On \<open>level3x3\<close>, which \<open>generateLevel 3 3 easy\<close> returns under
  the random outcomes \<open>genRandom\<close>, the first segment steps diagonally from (2,1) to
  (1,2); for the second segment both orthogonal neighbours of the target (2,2) are
  closed, (1,2) by the wall and (2,1) as already visited, yet the search reaches (2,2)
  by the diagonal step from (1,1) and the check answers \<open>true\<close>.
\<close>

theorem isPuzzleSolvable_accepts_diagonal_segment:
  "generateLevel 3 3 easy \<lparr>attemptDraws = [genRandom], fallbackDraw = noPath\<rparr>
     = Some (Inr level3x3) \<and>
   findPath level3x3 (co 2 0) (co 1 2) {co 2 0} = Some [co 2 0, co 2 1, co 1 2] \<and>
   findPath level3x3 (co 1 2) (co 2 2) {co 2 0, co 2 1, co 1 2} = Some [co 1 2, co 1 1, co 2 2] \<and>
   isBlocked (walls level3x3) (co 1 2) (co 2 2) \<and>
   isPuzzleSolvable level3x3 = Inr True"
proof -
  have s: "isPuzzleSolvable level3x3 = Inr True" by (simp add: check_eval)
  have "attempt 3 3 easy genRandom = Some (Inr (Some level3x3))"
    using s by (simp add: gen_eval co_def level3x3_def upto.simps)
  then have "generateLevel 3 3 easy \<lparr>attemptDraws = [genRandom], fallbackDraw = noPath\<rparr>
               = Some (Inr level3x3)"
    by (simp add: generateLevel_def)
  moreover have "findPath level3x3 (co 2 0) (co 1 2) {co 2 0} = Some [co 2 0, co 2 1, co 1 2]"
    by (simp add: check_eval)
  moreover have "findPath level3x3 (co 1 2) (co 2 2) {co 2 0, co 2 1, co 1 2}
                   = Some [co 1 2, co 1 1, co 2 2]"
    by (simp add: check_eval)
  moreover have "isBlocked (walls level3x3) (co 1 2) (co 2 2)" by (simp add: check_eval)
  ultimately show ?thesis using s by simp
qed

text \<open>
  Claim C2, as the code has it: \<open>isValidMove\<close> accepts every target inside the level that
  already appears in \<open>currentPath\<close>, at whatever index; and when the first occurrence
  of the target lies before the head, \<open>makeMove\<close> truncates the path to end at that
  occurrence in a single call.
\<close>

theorem isValidMove_accepts_any_path_entry:
  assumes "target \<in> set (currentPath gs)" and "inBounds (level gs) target"
  shows "isValidMove gs target = Inr True \<and>
         (\<forall>gs'. findIndex (samePos target) (currentPath gs) < int (length (currentPath gs)) - 1
                \<and> makeMove gs target = Inr gs' \<longrightarrow>
                currentPath gs' =
                  take (nat (findIndex (samePos target) (currentPath gs) + 1)) (currentPath gs))"
proof -
  have i: "findIndex (samePos target) (currentPath gs) \<noteq> -1"
    using assms(1) by (rule findIndex_member)
  have ne: "currentPath gs \<noteq> []" using assms(1) by auto
  have v: "isValidMove gs target = Inr True"
    using i ne assms(2) by (simp add: isValidMove_def Let_def inBounds_def)
  have "currentPath gs' =
          take (nat (findIndex (samePos target) (currentPath gs) + 1)) (currentPath gs)"
    if "findIndex (samePos target) (currentPath gs) < int (length (currentPath gs)) - 1"
      and "makeMove gs target = Inr gs'" for gs'
  proof -
    from that i have "rewindTo gs (findIndex (samePos target) (currentPath gs)) = Inr gs'"
      by (simp add: makeMove_def Let_def)
    then show ?thesis using rewindTo_result by blast
  qed
  with v show ?thesis by blast
qed

text \<open>
  The restriction to the second-to-last entry does not hold: with a path of three
  cells, the entry at index 0 is not the second-to-last one (index 1), and
  \<open>isValidMove\<close> accepts it.
\<close>

theorem isValidMove_deep_rewind_counterexample:
  "makeMoves (state2x2 (Some 1) None None None [co 0 0] False 1) [co 0 1, co 1 1]
     = Inr (state2x2 (Some 1) (Some 2) None (Some 3) [co 0 0, co 0 1, co 1 1] False 2) \<and>
   findIndex (samePos (co 0 0)) (currentPath (state2x2 (Some 1) (Some 2) None (Some 3)
       [co 0 0, co 0 1, co 1 1] False 2)) = 0 \<and>
   int (length (currentPath (state2x2 (Some 1) (Some 2) None (Some 3)
       [co 0 0, co 0 1, co 1 1] False 2))) - 2 = 1 \<and>
   isValidMove (state2x2 (Some 1) (Some 2) None (Some 3) [co 0 0, co 0 1, co 1 1] False 2)
     (co 0 0) = Inr True"
  by (simp add: game_eval)

text \<open>The same state and target, through the general theorem.\<close>

theorem isValidMove_accepts_any_path_entry_witness:
  "co 0 0 \<in> set (currentPath (state2x2 (Some 1) (Some 2) None (Some 3)
       [co 0 0, co 0 1, co 1 1] False 2)) \<and>
   inBounds (level (state2x2 (Some 1) (Some 2) None (Some 3) [co 0 0, co 0 1, co 1 1] False 2))
     (co 0 0) \<and>
   isValidMove (state2x2 (Some 1) (Some 2) None (Some 3) [co 0 0, co 0 1, co 1 1] False 2)
     (co 0 0) = Inr True \<and>
   makeMove (state2x2 (Some 1) (Some 2) None (Some 3) [co 0 0, co 0 1, co 1 1] False 2) (co 0 0)
     = Inr (state2x2 (Some 1) None None None [co 0 0] False 1)"
proof -
  let ?s = "state2x2 (Some 1) (Some 2) None (Some 3) [co 0 0, co 0 1, co 1 1] False 2"
  have m: "co 0 0 \<in> set (currentPath ?s)" by (simp add: game_eval)
  have b: "inBounds (level ?s) (co 0 0)" by (simp add: game_eval)
  have r: "makeMove ?s (co 0 0) = Inr (state2x2 (Some 1) None None None [co 0 0] False 1)"
    by (simp add: game_eval)
  from isValidMove_accepts_any_path_entry [OF m b] m b r show ?thesis by simp
qed

text \<open>
  Claim C3, as the code has it: on a state with \<open>isComplete = true\<close> the move handler
  \<open>handleMove\<close> returns before calling \<open>makeMove\<close> and leaves the state unchanged for
  every target. \<open>makeMove\<close> itself does not read \<open>isComplete\<close>: when the target is an
  earlier entry of the path it rewinds, and the state it returns is not complete.
\<close>

theorem handleMove_complete_noop:
  assumes "isComplete gs"
  shows "handleMove (Some gs) target = Inr (Some gs) \<and>
         (\<forall>gs'. findIndex (samePos target) (currentPath gs) \<noteq> -1
                \<and> findIndex (samePos target) (currentPath gs) < int (length (currentPath gs)) - 1
                \<and> makeMove gs target = Inr gs' \<longrightarrow> \<not> isComplete gs')"
proof -
  have "\<not> isComplete gs'"
    if "findIndex (samePos target) (currentPath gs) \<noteq> -1
        \<and> findIndex (samePos target) (currentPath gs) < int (length (currentPath gs)) - 1"
      and "makeMove gs target = Inr gs'" for gs'
  proof -
    from that have "rewindTo gs (findIndex (samePos target) (currentPath gs)) = Inr gs'"
      by (simp add: makeMove_def Let_def)
    then show ?thesis using rewindTo_result by blast
  qed
  moreover have "handleMove (Some gs) target = Inr (Some gs)"
    using assms by (simp add: handleMove_def)
  ultimately show ?thesis by blast
qed

text \<open>
  \<open>makeMove\<close> is not a no-op on a complete state: after the three moves that complete
  \<open>level2x2\<close>, the target (0,1) rewinds the path and clears \<open>isComplete\<close>.
\<close>

theorem makeMove_complete_rewind_counterexample:
  "isComplete (state2x2 (Some 1) (Some 2) (Some 4) (Some 3)
      [co 0 0, co 0 1, co 1 1, co 1 0] True 2) \<and>
   makeMoves (state2x2 (Some 1) None None None [co 0 0] False 1) [co 0 1, co 1 1, co 1 0]
     = Inr (state2x2 (Some 1) (Some 2) (Some 4) (Some 3)
              [co 0 0, co 0 1, co 1 1, co 1 0] True 2) \<and>
   makeMove (state2x2 (Some 1) (Some 2) (Some 4) (Some 3)
      [co 0 0, co 0 1, co 1 1, co 1 0] True 2) (co 0 1)
     = Inr (state2x2 (Some 1) (Some 2) None None [co 0 0, co 0 1] False 1) \<and>
   state2x2 (Some 1) (Some 2) None None [co 0 0, co 0 1] False 1
     \<noteq> state2x2 (Some 1) (Some 2) (Some 4) (Some 3) [co 0 0, co 0 1, co 1 1, co 1 0] True 2"
  by (simp add: game_eval)

text \<open>The completed state of \<open>level2x2\<close> and the target (0,1), through the general theorem.\<close>

theorem handleMove_complete_noop_witness:
  "isComplete (state2x2 (Some 1) (Some 2) (Some 4) (Some 3)
      [co 0 0, co 0 1, co 1 1, co 1 0] True 2) \<and>
   handleMove (Some (state2x2 (Some 1) (Some 2) (Some 4) (Some 3)
      [co 0 0, co 0 1, co 1 1, co 1 0] True 2)) (co 0 1)
     = Inr (Some (state2x2 (Some 1) (Some 2) (Some 4) (Some 3)
              [co 0 0, co 0 1, co 1 1, co 1 0] True 2)) \<and>
   makeMove (state2x2 (Some 1) (Some 2) (Some 4) (Some 3)
      [co 0 0, co 0 1, co 1 1, co 1 0] True 2) (co 0 1)
     = Inr (state2x2 (Some 1) (Some 2) None None [co 0 0, co 0 1] False 1) \<and>
   \<not> isComplete (state2x2 (Some 1) (Some 2) None None [co 0 0, co 0 1] False 1)"
proof -
  let ?s = "state2x2 (Some 1) (Some 2) (Some 4) (Some 3) [co 0 0, co 0 1, co 1 1, co 1 0] True 2"
  have c: "isComplete ?s" by (simp add: game_eval)
  have i: "findIndex (samePos (co 0 1)) (currentPath ?s) \<noteq> -1
           \<and> findIndex (samePos (co 0 1)) (currentPath ?s) < int (length (currentPath ?s)) - 1"
    by (simp add: game_eval)
  have r: "makeMove ?s (co 0 1)
             = Inr (state2x2 (Some 1) (Some 2) None None [co 0 0, co 0 1] False 1)"
    by (simp add: game_eval)
  from handleMove_complete_noop [OF c, of "co 0 1"] i r
  have "handleMove (Some ?s) (co 0 1) = Inr (Some ?s)
        \<and> \<not> isComplete (state2x2 (Some 1) (Some 2) None None [co 0 0, co 0 1] False 1)"
    by blast
  with c r show ?thesis by simp
qed

text \<open>
  Claim C4 (a target that is neither a legal forward move nor a rewind, the current
  path head included, leaves the state unchanged): a target equal to the head is in
  the path, so \<open>isValidMove\<close> returns \<open>true\<close>; its index is the last one, so \<open>makeMove\<close>
  does not rewind, and the normal-move branch appends the head a second time and
  restamps its \<open>visitedOrder\<close>. Evaluated on the initial state of \<open>level2x2\<close>.
\<close>

theorem makeMove_head_target_appends:
  "initializeGame level2x2 = Inr (state2x2 (Some 1) None None None [co 0 0] False 1) \<and>
   last (currentPath (state2x2 (Some 1) None None None [co 0 0] False 1)) = co 0 0 \<and>
   isValidMove (state2x2 (Some 1) None None None [co 0 0] False 1) (co 0 0) = Inr True \<and>
   makeMove (state2x2 (Some 1) None None None [co 0 0] False 1) (co 0 0)
     = Inr (state2x2 (Some 2) None None None [co 0 0, co 0 0] False 1)"
  by (simp add: game_eval)

text \<open>
  Claim C5 (in every state reached from \<open>initializeGame\<close> by \<open>makeMove\<close> calls, cell
  \<open>(r,c)\<close> has \<open>visitedOrder = k+1\<close> exactly when \<open>currentPath[k] = (r,c)\<close>): after the
  moves (0,1), (0,1) on \<open>level2x2\<close> the path holds (0,1) at indices 1 and 2 while the
  cell carries \<open>visitedOrder = 3\<close>, so index 1 has no matching order.
\<close>

theorem makeMove_head_target_breaks_agreement:
  "initializeGame level2x2 = Inr (state2x2 (Some 1) None None None [co 0 0] False 1) \<and>
   makeMoves (state2x2 (Some 1) None None None [co 0 0] False 1) [co 0 1, co 0 1]
     = Inr (state2x2 (Some 1) (Some 3) None None [co 0 0, co 0 1, co 0 1] False 1) \<and>
   at (currentPath (state2x2 (Some 1) (Some 3) None None [co 0 0, co 0 1, co 0 1] False 1)) 1
     = Some (co 0 1) \<and>
   map_sum id visitedOrder
     (cellAt (grid (state2x2 (Some 1) (Some 3) None None [co 0 0, co 0 1, co 0 1] False 1)) 0 1)
     = Inr (Some 3)"
  by (simp add: game_eval)

text \<open>
  Claim C6, as the code has it: for a target that is not in \<open>currentPath\<close> and whose grid
  cell is fixed with a clue value different from \<open>lastVisitedNumber + 1\<close>, \<open>isValidMove\<close>
  returns \<open>false\<close>, whatever the adjacency and the walls.
\<close>

theorem isValidMove_rejects_out_of_sequence_clue:
  assumes "cellAt (grid gs) (row target) (col target) = Inr cell"
    and "isFixed cell" and "cell_value cell = Some v" and "v \<noteq> lastVisitedNumber gs + 1"
    and "target \<notin> set (currentPath gs)"
  shows "isValidMove gs target = Inr False"
proof -
  have i: "findIndex (samePos target) (currentPath gs) = -1"
    using assms(5) by (rule findIndex_not_member)
  show ?thesis using i assms(1-4) by (simp add: isValidMove_def Let_def)
qed

text \<open>
  Without the restriction to targets outside the path the statement fails: in the
  initial state of \<open>level2x2\<close> the start cell is fixed with value 1, which is not
  \<open>lastVisitedNumber + 1 = 2\<close>, and \<open>isValidMove\<close> accepts it because it is in the path.
\<close>

theorem isValidMove_clue_in_path_counterexample:
  "initializeGame level2x2 = Inr (state2x2 (Some 1) None None None [co 0 0] False 1) \<and>
   cellAt (grid (state2x2 (Some 1) None None None [co 0 0] False 1)) 0 0
     = Inr (mkCell 0 0 (Some 1) (Some 1)) \<and>
   isFixed (mkCell 0 0 (Some 1) (Some 1)) \<and>
   cell_value (mkCell 0 0 (Some 1) (Some 1)) = Some 1 \<and>
   1 \<noteq> lastVisitedNumber (state2x2 (Some 1) None None None [co 0 0] False 1) + 1 \<and>
   isValidMove (state2x2 (Some 1) None None None [co 0 0] False 1) (co 0 0) = Inr True"
  by (simp add: game_eval)

text \<open>
  On \<open>level3x3\<close> after the move to (2,1), the adjacent cell (2,2) holds clue 3 while
  clue 2 has not been reached.
\<close>

theorem isValidMove_rejects_out_of_sequence_clue_witness:
  "cellAt (grid state3x3) (row (co 2 2)) (col (co 2 2)) = Inr (mkCell 2 2 (Some 3) None) \<and>
   isFixed (mkCell 2 2 (Some 3) None) \<and>
   cell_value (mkCell 2 2 (Some 3) None) = Some 3 \<and>
   3 \<noteq> lastVisitedNumber state3x3 + 1 \<and>
   co 2 2 \<notin> set (currentPath state3x3) \<and>
   (case initializeGame level3x3 of Inl e \<Rightarrow> Inl e | Inr s \<Rightarrow> makeMove s (co 2 1))
     = Inr state3x3 \<and>
   isValidMove state3x3 (co 2 2) = Inr False"
proof -
  have a: "cellAt (grid state3x3) (row (co 2 2)) (col (co 2 2)) = Inr (mkCell 2 2 (Some 3) None)"
    by (simp add: game_eval)
  have b: "isFixed (mkCell 2 2 (Some 3) None)" by (simp add: game_eval)
  have c: "cell_value (mkCell 2 2 (Some 3) None) = Some 3" by (simp add: game_eval)
  have d: "3 \<noteq> lastVisitedNumber state3x3 + 1" by (simp add: game_eval)
  have e: "co 2 2 \<notin> set (currentPath state3x3)" by (simp add: game_eval)
  have r: "(case initializeGame level3x3 of Inl e \<Rightarrow> Inl e | Inr s \<Rightarrow> makeMove s (co 2 1))
             = Inr state3x3"
    by (simp add: game_eval)
  from isValidMove_rejects_out_of_sequence_clue [OF a b c d e] a b c d e r show ?thesis by simp
qed

text \<open>
  Claim C7 (the fallback level has no walls and places clues by the policy of the main
  pipeline, with the difficulty-dependent clue count): the fallback computes its clue
  count as \<open>floor(rows * cols / 3)\<close> for every difficulty. For \<open>generateLevel 3 3 hard\<close>
  with all 50 attempts failing, the fallback returns three clues; the main pipeline on
  the same path places \<open>floor(9 / 5) = 1\<close>, raised to the two endpoints.
\<close>

theorem generateLevel_fallback_ignores_difficulty:
  "generateLevel 3 3 hard fallbackRandom =
     Some (Inr \<lparr>level_id = ''fb'', rows = 3, cols = 3,
                 initialValues = [\<lparr>row = 0, col = 0, iv_value = 1\<rparr>,
                                  \<lparr>row = 1, col = 1, iv_value = 2\<rparr>,
                                  \<lparr>row = 2, col = 2, iv_value = 3\<rparr>],
                 walls = []\<rparr>) \<and>
   numberCountFor hard (3 * 3) = 1 \<and>
   attempt 3 3 hard hardRandom =
     Some (Inr (Some \<lparr>level_id = ''main'', rows = 3, cols = 3,
                       initialValues = [\<lparr>row = 0, col = 0, iv_value = 1\<rparr>,
                                        \<lparr>row = 2, col = 2, iv_value = 2\<rparr>],
                       walls = []\<rparr>))"
proof -
  have "list_all (\<lambda>rnd. pathDraw rnd = None) (replicate 50 noPath)"
    by (simp add: list_all_iff noPath_def)
  moreover have "int (length (replicate 50 noPath)) = 50 - 0" by simp
  ultimately have "generateLevel 3 3 hard fallbackRandom
                     = fallbackLevel 3 3 (fallbackDraw fallbackRandom)"
    unfolding generateLevel_def fallbackRandom_def
    by (simp only: RandomSource.select_convs attemptLoop_no_paths)
  moreover have "attempt 3 3 hard hardRandom =
     Some (Inr (Some \<lparr>level_id = ''main'', rows = 3, cols = 3,
                       initialValues = [\<lparr>row = 0, col = 0, iv_value = 1\<rparr>,
                                        \<lparr>row = 2, col = 2, iv_value = 2\<rparr>],
                       walls = []\<rparr>))"
    by (simp add: hardRandom_def gen_eval check_eval)
  ultimately show ?thesis by (simp add: fallbackRandom_def gen_eval co_def)
qed

text \<open>
  Claim C8: for a level whose clue positions lie inside the grid (and whose dimensions
  are not negative), the cumulative visited set holds at most \<open>rows * cols\<close> cells
  whenever every segment search succeeds; hence \<open>isPuzzleSolvable\<close> returns \<open>true\<close>
  exactly when all segment searches find a path, and \<open>false\<close> exactly when one of them
  finds none.
\<close>

theorem isPuzzleSolvable_final_check_holds:
  assumes "list_all (inBounds lv) (initialValues lv)" and "0 \<le> rows lv" and "0 \<le> cols lv"
  shows "(\<forall>visited. visitAllNumbers lv = Inr (Some visited) \<longrightarrow>
            int (card visited) \<le> rows lv * cols lv) \<and>
         (isPuzzleSolvable lv = Inr True \<longleftrightarrow> (\<exists>visited. visitAllNumbers lv = Inr (Some visited))) \<and>
         (isPuzzleSolvable lv = Inr False \<longleftrightarrow> visitAllNumbers lv = Inr None)"
proof -
  have bound: "int (card visited) \<le> rows lv * cols lv"
    if "visitAllNumbers lv = Inr (Some visited)" for visited
  proof -
    have "visited \<subseteq> gridCells lv"
    proof (rule visitNumbers_cells)
      show "visitNumbers lv (numberPositions (initialValues lv))
              (case mathMax (map iv_value (initialValues lv)) of
                 None \<Rightarrow> [] | Some maxNumber \<Rightarrow> [1..maxNumber]) {} = Inr (Some visited)"
        using that by (simp add: visitAllNumbers_def)
      show "{} \<subseteq> gridCells lv" by simp
      show "\<And>k p. numberPositions (initialValues lv) k = Some p \<Longrightarrow> p \<in> gridCells lv"
        using assms(1) by (rule numberPositions_cells)
    qed
    then have "card visited \<le> card (gridCells lv)"
      using finite_gridCells by (simp add: card_mono)
    then show ?thesis using card_gridCells [OF assms(2,3)] by linarith
  qed
  show ?thesis
  proof (cases "visitAllNumbers lv")
    case (Inl e)
    then show ?thesis by (simp add: isPuzzleSolvable_def)
  next
    case (Inr r)
    then show ?thesis using bound by (cases r) (simp_all add: isPuzzleSolvable_def)
  qed
qed

text \<open>Both outcomes occur: \<open>level3x3\<close> passes, \<open>levelCut\<close> fails in its second segment.\<close>

theorem isPuzzleSolvable_final_check_holds_witness:
  "list_all (inBounds level3x3) (initialValues level3x3) \<and>
   0 \<le> rows level3x3 \<and> 0 \<le> cols level3x3 \<and>
   visitAllNumbers level3x3 = Inr (Some {co 2 0, co 2 1, co 1 2, co 1 1, co 2 2}) \<and>
   isPuzzleSolvable level3x3 = Inr True \<and>
   list_all (inBounds levelCut) (initialValues levelCut) \<and>
   0 \<le> rows levelCut \<and> 0 \<le> cols levelCut \<and>
   visitAllNumbers levelCut = Inr None \<and>
   isPuzzleSolvable levelCut = Inr False"
proof -
  have a: "list_all (inBounds level3x3) (initialValues level3x3)" by (simp add: check_eval)
  have b: "0 \<le> rows level3x3" and c: "0 \<le> cols level3x3" by (simp_all add: check_eval)
  have v: "visitAllNumbers level3x3 = Inr (Some {co 2 0, co 2 1, co 1 2, co 1 1, co 2 2})"
    by (simp add: check_eval insert_commute)
  have a': "list_all (inBounds levelCut) (initialValues levelCut)" by (simp add: check_eval)
  have b': "0 \<le> rows levelCut" and c': "0 \<le> cols levelCut" by (simp_all add: check_eval)
  have v': "visitAllNumbers levelCut = Inr None" by (simp add: check_eval)
  from isPuzzleSolvable_final_check_holds [OF a b c] v have "isPuzzleSolvable level3x3 = Inr True" by blast
  moreover from isPuzzleSolvable_final_check_holds [OF a' b' c'] v' have "isPuzzleSolvable levelCut = Inr False" by blast
  ultimately show ?thesis using a b c v a' b' c' v' by simp
qed

text \<open>
  Claim C9: whenever \<open>makeMove\<close> returns a state, that state has the same level, and
  its grid differs from the input grid in \<open>visitedOrder\<close> entries at most: the values,
  the \<open>isFixed\<close> flags and the shape of the grid are unchanged. On a well-shaped state
  \<open>makeMove\<close> does return a state.
\<close>

theorem makeMove_frame:
  "(wellShaped gs \<longrightarrow> (\<exists>gs'. makeMove gs target = Inr gs')) \<and>
   (\<forall>gs'. makeMove gs target = Inr gs' \<longrightarrow>
      level gs' = level gs \<and>
      map (map cell_value) (grid gs') = map (map cell_value) (grid gs) \<and>
      map (map isFixed) (grid gs') = map (map isFixed) (grid gs) \<and>
      map (map (\<lambda>cell. cell\<lparr>visitedOrder := None\<rparr>)) (grid gs')
        = map (map (\<lambda>cell. cell\<lparr>visitedOrder := None\<rparr>)) (grid gs))"
proof -
  have "level gs' = level gs \<and>
      map (map cell_value) (grid gs') = map (map cell_value) (grid gs) \<and>
      map (map isFixed) (grid gs') = map (map isFixed) (grid gs) \<and>
      map (map (\<lambda>cell. cell\<lparr>visitedOrder := None\<rparr>)) (grid gs')
        = map (map (\<lambda>cell. cell\<lparr>visitedOrder := None\<rparr>)) (grid gs)"
    if m: "makeMove gs target = Inr gs'" for gs'
    using makeMove_keeps [OF m, of cell_value] makeMove_keeps [OF m, of isFixed]
      makeMove_keeps [OF m, of "\<lambda>cell. cell\<lparr>visitedOrder := None\<rparr>"]
    by simp
  then show ?thesis using makeMove_total by blast
qed

text \<open>The first move on \<open>level2x2\<close>.\<close>

theorem makeMove_frame_witness:
  "wellShaped (state2x2 (Some 1) None None None [co 0 0] False 1) \<and>
   makeMove (state2x2 (Some 1) None None None [co 0 0] False 1) (co 0 1)
     = Inr (state2x2 (Some 1) (Some 2) None None [co 0 0, co 0 1] False 1) \<and>
   level (state2x2 (Some 1) (Some 2) None None [co 0 0, co 0 1] False 1)
     = level (state2x2 (Some 1) None None None [co 0 0] False 1) \<and>
   map (map cell_value) (grid (state2x2 (Some 1) (Some 2) None None [co 0 0, co 0 1] False 1))
     = map (map cell_value) (grid (state2x2 (Some 1) None None None [co 0 0] False 1)) \<and>
   map (map isFixed) (grid (state2x2 (Some 1) (Some 2) None None [co 0 0, co 0 1] False 1))
     = map (map isFixed) (grid (state2x2 (Some 1) None None None [co 0 0] False 1))"
proof -
  let ?s = "state2x2 (Some 1) None None None [co 0 0] False 1"
  let ?t = "state2x2 (Some 1) (Some 2) None None [co 0 0, co 0 1] False 1"
  have w: "wellShaped ?s" by (simp add: game_eval)
  have m: "makeMove ?s (co 0 1) = Inr ?t" by (simp add: game_eval)
  from makeMove_frame [of ?s "co 0 1"] m
  have "level ?t = level ?s
        \<and> map (map cell_value) (grid ?t) = map (map cell_value) (grid ?s)
        \<and> map (map isFixed) (grid ?t) = map (map isFixed) (grid ?s)"
    by blast
  with w m show ?thesis by simp
qed

text \<open>
  Claim C10: if no entry of \<open>initialValues\<close> has value 1, every state \<open>initializeGame\<close>
  returns has an empty path, \<open>lastVisitedNumber = 0\<close>, \<open>isComplete = false\<close> and no
  visited cell, and every sequence of \<open>makeMove\<close> calls on it returns that same state.
  \<open>initializeGame\<close> does return a state when the clue positions lie inside the grid.
\<close>

theorem initializeGame_without_start_is_stuck:
  assumes "\<forall>iv\<in>set (initialValues lv). iv_value iv \<noteq> 1"
  shows "(list_all (inBounds lv) (initialValues lv) \<longrightarrow> (\<exists>gs. initializeGame lv = Inr gs)) \<and>
         (\<forall>gs. initializeGame lv = Inr gs \<longrightarrow>
            currentPath gs = [] \<and> lastVisitedNumber gs = 0 \<and> \<not> isComplete gs \<and>
            (\<forall>rw\<in>set (grid gs). \<forall>cell\<in>set rw. visitedOrder cell = None) \<and>
            (\<forall>ts. makeMoves gs ts = Inr gs))"
proof -
  have nf: "find (\<lambda>v. iv_value v = 1) (initialValues lv) = None"
    using assms by (simp add: find_None_iff)
  have total: "\<exists>gs. initializeGame lv = Inr gs" if "list_all (inBounds lv) (initialValues lv)"
  proof -
    from that have "list_all (\<lambda>iv. inGrid (emptyGrid (rows lv) (cols lv)) (row iv) (col iv))
                      (initialValues lv)"
      by (simp add: list_all_iff inGrid_emptyGrid inBounds_def)
    then obtain g where "stampValues (initialValues lv) (emptyGrid (rows lv) (cols lv)) = Inr g"
      using stampValues_total by blast
    then show ?thesis using nf by (simp add: initializeGame_def)
  qed
  have props: "currentPath gs = [] \<and> lastVisitedNumber gs = 0 \<and> \<not> isComplete gs \<and>
            (\<forall>rw\<in>set (grid gs). \<forall>cell\<in>set rw. visitedOrder cell = None) \<and>
            (\<forall>ts. makeMoves gs ts = Inr gs)" if "initializeGame lv = Inr gs" for gs
  proof -
    from that nf obtain g
      where g: "stampValues (initialValues lv) (emptyGrid (rows lv) (cols lv)) = Inr g"
        and gs: "gs = \<lparr>level = lv, grid = g, currentPath = [], isComplete = False,
                       lastVisitedNumber = 0\<rparr>"
      by (auto simp: initializeGame_def split: sum.splits)
    have "map (map visitedOrder) g = map (map visitedOrder) (emptyGrid (rows lv) (cols lv))"
      using g by (rule stampValues_order)
    then have "\<forall>rw\<in>set g. \<forall>cell\<in>set rw. visitedOrder cell = None"
      using emptyGrid_order [of "rows lv" "cols lv"] by (simp only: order_none_iff)
    moreover have "currentPath gs = []" using gs by simp
    moreover have "\<forall>ts. makeMoves gs ts = Inr gs"
      using \<open>currentPath gs = []\<close> makeMoves_empty_path by blast
    ultimately show ?thesis using gs by simp
  qed
  from total props show ?thesis by blast
qed

text \<open>A 1 x 2 level whose only clue has value 2.\<close>

theorem initializeGame_without_start_is_stuck_witness:
  "list_all (\<lambda>iv. iv_value iv \<noteq> 1) (initialValues levelNoStart) \<and>
   list_all (inBounds levelNoStart) (initialValues levelNoStart) \<and>
   initializeGame levelNoStart = Inr stateNoStart \<and>
   currentPath stateNoStart = [] \<and> lastVisitedNumber stateNoStart = 0 \<and>
   \<not> isComplete stateNoStart \<and>
   makeMoves stateNoStart [co 0 0, co 0 1, co 0 0] = Inr stateNoStart"
proof -
  have h: "\<forall>iv\<in>set (initialValues levelNoStart). iv_value iv \<noteq> 1" by (simp add: game_eval)
  have b: "list_all (inBounds levelNoStart) (initialValues levelNoStart)"
    by (simp add: game_eval)
  have i: "initializeGame levelNoStart = Inr stateNoStart" by (simp add: game_eval)
  from initializeGame_without_start_is_stuck [OF h] i
  have "currentPath stateNoStart = [] \<and> lastVisitedNumber stateNoStart = 0 \<and>
        \<not> isComplete stateNoStart \<and>
        makeMoves stateNoStart [co 0 0, co 0 1, co 0 0] = Inr stateNoStart"
    by blast
  with h b i show ?thesis by (simp add: list_all_iff)
qed

end
